theory Spec2Isabelle
  imports Complex_Main
begin

section \<open>JavaScript numbers\<close>

text \<open>
  The canvas editor computes with JavaScript numbers. They are modelled as the extended
  reals of IEEE arithmetic: a finite value, the two infinities, and NaN. Division by zero
  does not raise: it yields an infinity or NaN. Rounding, overflow and the sign of zero
  are not modelled (finite values are exact reals).
\<close>

datatype jsnum = Num real | PosInf | NegInf | NaN

fun js_sub :: "jsnum \<Rightarrow> jsnum \<Rightarrow> jsnum" where
  "js_sub NaN _ = NaN"
| "js_sub _ NaN = NaN"
| "js_sub (Num a) (Num b) = Num (a - b)"
| "js_sub (Num a) PosInf = NegInf"
| "js_sub (Num a) NegInf = PosInf"
| "js_sub PosInf PosInf = NaN"
| "js_sub PosInf _ = PosInf"
| "js_sub NegInf NegInf = NaN"
| "js_sub NegInf _ = NegInf"

fun js_mul :: "jsnum \<Rightarrow> jsnum \<Rightarrow> jsnum" where
  "js_mul NaN _ = NaN"
| "js_mul _ NaN = NaN"
| "js_mul (Num a) (Num b) = Num (a * b)"
| "js_mul (Num a) PosInf = (if a = 0 then NaN else if 0 < a then PosInf else NegInf)"
| "js_mul (Num a) NegInf = (if a = 0 then NaN else if 0 < a then NegInf else PosInf)"
| "js_mul PosInf (Num b) = (if b = 0 then NaN else if 0 < b then PosInf else NegInf)"
| "js_mul NegInf (Num b) = (if b = 0 then NaN else if 0 < b then NegInf else PosInf)"
| "js_mul PosInf PosInf = PosInf"
| "js_mul PosInf NegInf = NegInf"
| "js_mul NegInf PosInf = NegInf"
| "js_mul NegInf NegInf = PosInf"

fun js_div :: "jsnum \<Rightarrow> jsnum \<Rightarrow> jsnum" where
  "js_div NaN _ = NaN"
| "js_div _ NaN = NaN"
| "js_div (Num a) (Num b) =
     (if b \<noteq> 0 then Num (a / b)
      else if a = 0 then NaN else if 0 < a then PosInf else NegInf)"
| "js_div (Num a) PosInf = Num 0"
| "js_div (Num a) NegInf = Num 0"
| "js_div PosInf (Num b) = (if 0 \<le> b then PosInf else NegInf)"
| "js_div NegInf (Num b) = (if 0 \<le> b then NegInf else PosInf)"
| "js_div PosInf _ = NaN"
| "js_div NegInf _ = NaN"

text \<open>The comparison \<open>a < b\<close> of JavaScript: false as soon as one side is NaN.\<close>

fun js_lt :: "jsnum \<Rightarrow> jsnum \<Rightarrow> bool" where
  "js_lt NaN _ = False"
| "js_lt _ NaN = False"
| "js_lt (Num a) (Num b) = (a < b)"
| "js_lt (Num a) PosInf = True"
| "js_lt (Num a) NegInf = False"
| "js_lt PosInf _ = False"
| "js_lt NegInf NegInf = False"
| "js_lt NegInf _ = True"

fun js_min2 :: "jsnum \<Rightarrow> jsnum \<Rightarrow> jsnum" where
  "js_min2 NaN _ = NaN"
| "js_min2 _ NaN = NaN"
| "js_min2 NegInf _ = NegInf"
| "js_min2 _ NegInf = NegInf"
| "js_min2 PosInf b = b"
| "js_min2 a PosInf = a"
| "js_min2 (Num a) (Num b) = Num (min a b)"

text \<open>\<open>Math.min\<close> of any number of arguments; \<open>Math.min()\<close> is \<open>Infinity\<close>.\<close>

definition Math_min :: "jsnum list \<Rightarrow> jsnum" where
  "Math_min xs = foldr js_min2 xs PosInf"

section \<open>Data model (types.ts and the component's props and state)\<close>

text \<open>
  Record fields carry a prefix where the source's field name is a common variable or
  constant name: \<open>x\<close>, \<open>y\<close> of a point are \<open>point_x\<close>, \<open>point_y\<close>;
  \<open>width\<close>, \<open>height\<close> of the image dimensions, the canvas and the bounding box are
  \<open>dim_width\<close>, \<open>canvas_width\<close>, \<open>rect_width\<close> and so on; \<open>points\<close>,
  \<open>size\<close> of a path are \<open>path_points\<close>, \<open>path_size\<close>.
\<close>

text \<open>\<open>interface Point { x; y }\<close>: a point in image-pixel space.\<close>

record point =
  point_x :: jsnum
  point_y :: jsnum

text \<open>\<open>interface ImageDimensions { width; height }\<close>; an image element's width and
  height are unsigned integers.\<close>

record ImageDimensions =
  dim_width :: nat
  dim_height :: nat

text \<open>An element of \<open>paths\<close>: \<open>{points: Point[], size: number}\<close>.\<close>

record path =
  path_points :: "point list"
  path_size :: int

text \<open>
  \<open>CanvasEditorProps\<close>. \<open>imageSrc\<close> is not needed; \<open>onMaskReady\<close> is modelled by
  the list of masks it is called with. The parent passes an integer brush size (a range
  input from 5 to 100, read with \<open>parseInt\<close>) and a counter that starts at 0.
\<close>

record props =
  brushSize :: int
  isProcessing :: bool
  triggerExport :: nat

text \<open>The component's \<open>useState\<close> cells.\<close>

record cstate =
  isDrawing :: bool
  paths :: "path list"
  currentPath :: "point list"
  imgDimensions :: ImageDimensions
  scale :: jsnum

definition initState :: cstate where
  "initState = \<lparr>isDrawing = False, paths = [], currentPath = [],
     imgDimensions = \<lparr>dim_width = 0, dim_height = 0\<rparr>, scale = Num 1\<rparr>"

text \<open>What the code reads from the DOM: the container element behind
  \<open>containerRef\<close> (absent while the ref is null) and \<open>window.innerHeight\<close>.\<close>

record container =
  clientWidth :: nat
  clientHeight :: nat

record dom =
  containerRef :: "container option"
  innerHeight :: nat

text \<open>\<open>getBoundingClientRect()\<close> of the canvas, and the canvas element itself with
  its pixel buffer size (\<open>canvas.width\<close>, \<open>canvas.height\<close>).\<close>

record DOMRect =
  rect_left :: real
  rect_top :: real
  rect_width :: real
  rect_height :: real

record canvas =
  canvas_width :: nat
  canvas_height :: nat
  canvas_rect :: DOMRect

text \<open>A mouse event carries its client coordinates; a touch event the list of active
  touches, each with client coordinates.\<close>

datatype pointer_event = MouseEvent real real | TouchEvent "(real \<times> real) list"

section \<open>Fit-to-container scaler\<close>

text \<open>
  \<open>fitImageToContainer (imgW, imgH)\<close>: returns without setting the scale while the
  container ref is null; \<open>clientHeight || window.innerHeight * 0.6\<close> takes the right
  operand exactly when the measured height is 0.
\<close>

definition fitImageToContainer :: "dom \<Rightarrow> nat \<Rightarrow> nat \<Rightarrow> cstate \<Rightarrow> cstate" where
  "fitImageToContainer d imgW imgH st =
     (case containerRef d of
        None \<Rightarrow> st
      | Some c \<Rightarrow>
          let containerW = Num (real (clientWidth c));
              containerH = (if clientHeight c \<noteq> 0 then Num (real (clientHeight c))
                            else js_mul (Num (real (innerHeight d))) (Num (6 / 10)));
              scaleW = js_div containerW (Num (real imgW));
              scaleH = js_div containerH (Num (real imgH));
              newScale = Math_min [scaleW, scaleH, Num 1]
          in st\<lparr>scale := newScale\<rparr>)"

text \<open>\<open>img.onload\<close> of the first effect, and the window's resize handler.\<close>

definition onImageLoad :: "dom \<Rightarrow> nat \<Rightarrow> nat \<Rightarrow> cstate \<Rightarrow> cstate" where
  "onImageLoad d w h st =
     fitImageToContainer d w h (st\<lparr>imgDimensions := \<lparr>dim_width = w, dim_height = h\<rparr>\<rparr>)"

definition handleResize :: "dom \<Rightarrow> cstate \<Rightarrow> cstate" where
  "handleResize d st =
     (if dim_width (imgDimensions st) > 0
      then fitImageToContainer d (dim_width (imgDimensions st)) (dim_height (imgDimensions st)) st
      else st)"

section \<open>Coordinate mapper\<close>

text \<open>
  The canvas element is rendered only while \<open>imgDimensions.width > 0\<close>, and the render
  effect sets its pixel buffer to the image dimensions; its bounding box comes from layout.
\<close>

definition canvasRef :: "cstate \<Rightarrow> DOMRect \<Rightarrow> canvas option" where
  "canvasRef st r =
     (if dim_width (imgDimensions st) > 0
      then Some \<lparr>canvas_width = dim_width (imgDimensions st),
                 canvas_height = dim_height (imgDimensions st), canvas_rect = r\<rparr>
      else None)"

fun getCoordinates :: "canvas option \<Rightarrow> pointer_event \<Rightarrow> point option" where
  "getCoordinates None e = None"
| "getCoordinates (Some cv) (TouchEvent []) = None"
| "getCoordinates (Some cv) e =
     (let rect = canvas_rect cv;
          (clientX, clientY) = (case e of TouchEvent ts \<Rightarrow> hd ts | MouseEvent cx cy \<Rightarrow> (cx, cy));
          x = js_mul (js_sub (Num clientX) (Num (rect_left rect)))
                     (js_div (Num (real (canvas_width cv))) (Num (rect_width rect)));
          y = js_mul (js_sub (Num clientY) (Num (rect_top rect)))
                     (js_div (Num (real (canvas_height cv))) (Num (rect_height rect)))
      in Some \<lparr>point_x = x, point_y = y\<rparr>)"

section \<open>Stroke model\<close>

definition startDrawing :: "props \<Rightarrow> canvas option \<Rightarrow> pointer_event \<Rightarrow> cstate \<Rightarrow> cstate" where
  "startDrawing p cv e st =
     (if isProcessing p then st
      else case getCoordinates cv e of
             Some point \<Rightarrow> st\<lparr>isDrawing := True, currentPath := [point]\<rparr>
           | None \<Rightarrow> st)"

definition draw :: "props \<Rightarrow> canvas option \<Rightarrow> pointer_event \<Rightarrow> cstate \<Rightarrow> cstate" where
  "draw p cv e st =
     (if \<not> isDrawing st \<or> isProcessing p then st
      else case getCoordinates cv e of
             Some point \<Rightarrow> st\<lparr>currentPath := currentPath st @ [point]\<rparr>
           | None \<Rightarrow> st)"

definition stopDrawing :: "props \<Rightarrow> cstate \<Rightarrow> cstate" where
  "stopDrawing p st =
     (let st' = (if isDrawing st \<and> length (currentPath st) > 0
                 then st\<lparr>paths := paths st @ [\<lparr>path_points = currentPath st, path_size = brushSize p\<rparr>],
                          currentPath := []\<rparr>
                 else st)
      in st'\<lparr>isDrawing := False\<rparr>)"

text \<open>The click handlers of the two toolbar buttons (undo and clear):
  \<open>setPaths(p => p.slice(0, -1))\<close> and \<open>setPaths([]); setCurrentPath([])\<close>.\<close>

definition undoLast :: "cstate \<Rightarrow> cstate" where
  "undoLast st = st\<lparr>paths := butlast (paths st)\<rparr>"

definition clearAll :: "cstate \<Rightarrow> cstate" where
  "clearAll st = st\<lparr>paths := [], currentPath := []\<rparr>"

section \<open>Mask exporter\<close>

text \<open>
  The mask is described by the drawing commands issued on the new canvas: its pixel size,
  the black fill of the whole buffer, and then one white round-capped polyline per path
  with the line width in force. \<open>toDataURL\<close> only encodes the resulting raster.
\<close>

record polyline =
  line_width :: real
  line_start :: point
  line_rest :: "point list"

record mask =
  mask_width :: nat
  mask_height :: nat
  mask_lines :: "polyline list"

datatype js_error = TypeError

text \<open>
  One iteration of \<open>paths.forEach\<close>, given the context's current line width. Assigning
  a line width that is not positive is ignored by the canvas. \<open>path.points[0]\<close> of an
  empty array is \<open>undefined\<close>, and reading its \<open>x\<close> throws.
\<close>

fun strokePath :: "real \<Rightarrow> path \<Rightarrow> js_error + polyline" where
  "strokePath lw pa =
     (let lw' = (if path_size pa > 0 then real_of_int (path_size pa) else lw)
      in case path_points pa of
           [] \<Rightarrow> Inl TypeError
         | p0 # ps \<Rightarrow> Inr \<lparr>line_width = lw', line_start = p0, line_rest = ps\<rparr>)"

fun strokePaths :: "real \<Rightarrow> path list \<Rightarrow> js_error + polyline list" where
  "strokePaths lw [] = Inr []"
| "strokePaths lw (pa # pas) =
     (case strokePath lw pa of
        Inl err \<Rightarrow> Inl err
      | Inr l \<Rightarrow> (case strokePaths (line_width l) pas of
                    Inl err \<Rightarrow> Inl err
                  | Inr ls \<Rightarrow> Inr (l # ls)))"

text \<open>
  \<open>generateMask\<close>: the result is the list of calls made to \<open>onMaskReady\<close> (none when
  \<open>getContext\<close> gives no context, \<open>hasCtx = False\<close>), or the exception thrown.
\<close>

definition generateMask :: "bool \<Rightarrow> cstate \<Rightarrow> js_error + mask list" where
  "generateMask hasCtx st =
     (if \<not> hasCtx then Inr []
      else case strokePaths 1 (paths st) of
             Inl err \<Rightarrow> Inl err
           | Inr ls \<Rightarrow> Inr [\<lparr>mask_width = dim_width (imgDimensions st),
                             mask_height = dim_height (imgDimensions st),
                             mask_lines = ls\<rparr>])"

text \<open>
  The export effect, with dependency list \<open>[triggerExport]\<close>: its body runs after the
  first render (\<open>prev = None\<close>) and after each render whose \<open>triggerExport\<close> differs from
  that of the previous render.
\<close>

definition exportEffect :: "bool \<Rightarrow> nat option \<Rightarrow> props \<Rightarrow> cstate \<Rightarrow> js_error + mask list" where
  "exportEffect hasCtx prev p st =
     (if prev = Some (triggerExport p) then Inr []
      else if triggerExport p = 0 then Inr []
      else generateMask hasCtx st)"

text \<open>\<open>handleStartProcessing\<close> of the parent: \<open>setExportTrigger(prev => prev + 1)\<close>.\<close>

definition handleStartProcessing :: "nat \<Rightarrow> nat" where
  "handleStartProcessing prev = prev + 1"

section \<open>The component as a transition system\<close>

text \<open>
  Every event the component reacts to, with what the handler reads at that moment: the
  props of the current render, the DOM measurements and the pointer event.
\<close>

datatype action =
    ImageLoaded dom nat nat
  | Resize dom
  | PointerDown props DOMRect pointer_event
  | PointerMove props DOMRect pointer_event
  | PointerUp props
  | UndoClick
  | ClearClick

fun step :: "cstate \<Rightarrow> action \<Rightarrow> cstate" where
  "step st (ImageLoaded d w h) = onImageLoad d w h st"
| "step st (Resize d) = handleResize d st"
| "step st (PointerDown p r e) = startDrawing p (canvasRef st r) e st"
| "step st (PointerMove p r e) = draw p (canvasRef st r) e st"
| "step st (PointerUp p) = stopDrawing p st"
| "step st UndoClick = undoLast st"
| "step st ClearClick = clearAll st"

definition run :: "action list \<Rightarrow> cstate \<Rightarrow> cstate" where
  "run acts st = foldl step st acts"

fun isImageLoaded :: "action \<Rightarrow> bool" where
  "isImageLoaded (ImageLoaded d w h) = True"
| "isImageLoaded _ = False"

text \<open>One drawing gesture: pointer down, any number of moves, pointer up.\<close>

record gesture =
  g_down :: "props \<times> DOMRect \<times> pointer_event"
  g_moves :: "(props \<times> DOMRect \<times> pointer_event) list"
  g_up :: props

definition gestureActions :: "gesture \<Rightarrow> action list" where
  "gestureActions g =
     (case g_down g of (p, r, e) \<Rightarrow> PointerDown p r e)
       # map (\<lambda>(p, r, e). PointerMove p r e) (g_moves g) @ [PointerUp (g_up g)]"

text \<open>A gesture contributes a point when its pointer-down is accepted: no processing,
  and the mapper returns a point.\<close>

definition gestureStarts :: "cstate \<Rightarrow> gesture \<Rightarrow> bool" where
  "gestureStarts st g =
     (case g_down g of (p, r, e) \<Rightarrow>
        \<not> isProcessing p \<and> getCoordinates (canvasRef st r) e \<noteq> None)"

section \<open>The scale formula of the specification\<close>

text \<open>
  The specification's formula for the display scale, over the reals:
  \<open>min (containerW / imgW, containerH / imgH, 1)\<close>. It is compared below with what
  \<open>fitImageToContainer\<close> computes.
\<close>

definition spec_scale :: "real \<Rightarrow> real \<Rightarrow> real \<Rightarrow> real \<Rightarrow> real" where
  "spec_scale containerW containerH imgW imgH = min (containerW / imgW) (min (containerH / imgH) 1)"

section \<open>Invariant of the stroke model\<close>

text \<open>Every completed path holds at least one point.\<close>

definition pathsNonempty :: "cstate \<Rightarrow> bool" where
  "pathsNonempty st = list_all (\<lambda>pa. path_points pa \<noteq> []) (paths st)"

section \<open>Concrete inputs\<close>

text \<open>
  An 800 x 600 image in a 400 x 300 container (display scale 1/2), the canvas laid out
  at (10, 20) with its scaled size, and a gesture of two pointer positions that map to
  the image points (100, 100) and (200, 100); the brush size is 30 at pointer-down and
  50 from the first move on.
\<close>

definition ex_dom :: dom where
  "ex_dom = \<lparr>containerRef = Some \<lparr>clientWidth = 400, clientHeight = 300\<rparr>, innerHeight = 1000\<rparr>"

definition ex_dom_flat :: dom where
  "ex_dom_flat = \<lparr>containerRef = Some \<lparr>clientWidth = 400, clientHeight = 0\<rparr>, innerHeight = 1000\<rparr>"

definition ex_rect :: DOMRect where
  "ex_rect = \<lparr>rect_left = 10, rect_top = 20, rect_width = 400, rect_height = 300\<rparr>"

definition ex_rect_flat :: DOMRect where
  "ex_rect_flat = \<lparr>rect_left = 10, rect_top = 20, rect_width = 0, rect_height = 0\<rparr>"

definition ex_props :: "int \<Rightarrow> props" where
  "ex_props b = \<lparr>brushSize = b, isProcessing = False, triggerExport = 0\<rparr>"

definition ex_loaded :: cstate where
  "ex_loaded = onImageLoad ex_dom 800 600 initState"

definition ex_gesture :: gesture where
  "ex_gesture = \<lparr>g_down = (ex_props 30, ex_rect, MouseEvent 60 70),
     g_moves = [(ex_props 50, ex_rect, MouseEvent 110 70)], g_up = ex_props 50\<rparr>"

lemmas ex_defs = ex_dom_def ex_dom_flat_def ex_rect_def ex_rect_flat_def ex_props_def ex_loaded_def
  ex_gesture_def

lemmas model_defs = initState_def fitImageToContainer_def onImageLoad_def handleResize_def
  canvasRef_def startDrawing_def draw_def stopDrawing_def undoLast_def clearAll_def
  generateMask_def exportEffect_def handleStartProcessing_def run_def gestureActions_def
  gestureStarts_def Math_min_def Let_def pathsNonempty_def

section \<open>Basic facts about the model\<close>

lemma getCoordinates_None_iff:
  "getCoordinates cv e = None \<longleftrightarrow> (cv = None \<or> e = TouchEvent [])"
  by (cases "(cv, e)" rule: getCoordinates.cases) (auto simp: Let_def split: prod.splits)

lemma Math_min3_le_one: "\<not> js_lt (Num 1) (Math_min [a, b, Num 1])"
  by (cases a; cases b) (simp_all add: Math_min_def)

lemma step_pathsNonempty: "pathsNonempty st \<Longrightarrow> pathsNonempty (step st a)"
  by (cases a)
     (auto simp: pathsNonempty_def onImageLoad_def fitImageToContainer_def handleResize_def
        startDrawing_def draw_def stopDrawing_def undoLast_def clearAll_def Let_def
        list_all_iff dest: in_set_butlastD split: option.splits)

lemma run_pathsNonempty: "pathsNonempty st \<Longrightarrow> pathsNonempty (run acts st)"
  unfolding run_def by (induction acts arbitrary: st) (auto simp: step_pathsNonempty)

lemma initState_pathsNonempty: "pathsNonempty initState"
  by (simp add: pathsNonempty_def initState_def)

lemma strokePaths_ok:
  "list_all (\<lambda>pa. path_points pa \<noteq> []) ps \<Longrightarrow> \<exists>ls. strokePaths lw ps = Inr ls \<and> length ls = length ps"
proof (induction ps arbitrary: lw)
  case Nil
  then show ?case by simp
next
  case (Cons pa ps)
  then obtain p0 rest where pts: "path_points pa = p0 # rest"
    by (cases "path_points pa") auto
  define l where "l = \<lparr>line_width = (if path_size pa > 0 then real_of_int (path_size pa) else lw),
     line_start = p0, line_rest = rest\<rparr>"
  have sp: "strokePath lw pa = Inr l"
    by (simp add: pts l_def)
  from Cons obtain ls where "strokePaths (line_width l) ps = Inr ls" "length ls = length ps"
    by fastforce
  with sp show ?case by (simp del: strokePath.simps)
qed


lemma run_append: "run (as @ bs) st = run bs (run as st)"
  by (simp add: run_def)

lemma run_Cons: "run (a # as) st = run as (step st a)"
  by (simp add: run_def)

lemma run_Nil: "run [] st = st"
  by (simp add: run_def)

lemma moves_keep:
  "isDrawing st \<Longrightarrow> currentPath st \<noteq> [] \<Longrightarrow>
   \<exists>cp. cp \<noteq> [] \<and> run (map (\<lambda>(p, r, e). PointerMove p r e) ms) st = st\<lparr>currentPath := cp\<rparr>"
proof (induction ms arbitrary: st)
  case Nil
  then show ?case by (auto simp: run_Nil intro: exI[of _ "currentPath st"])
next
  case (Cons m ms)
  obtain p r e where m: "m = (p, r, e)" by (cases m)
  define st1 where "st1 = draw p (canvasRef st r) e st"
  have "\<exists>c1. c1 \<noteq> [] \<and> st1 = st\<lparr>currentPath := c1\<rparr>"
    using Cons.prems
    by (auto simp: st1_def draw_def split: option.splits intro: exI[of _ "currentPath st"])
  then obtain c1 where c1: "c1 \<noteq> []" "st1 = st\<lparr>currentPath := c1\<rparr>" by blast
  have "isDrawing st1" "currentPath st1 \<noteq> []"
    using Cons.prems c1 by simp_all
  from Cons.IH[OF this] obtain cp where
    cp: "cp \<noteq> []" "run (map (\<lambda>(p, r, e). PointerMove p r e) ms) st1 = st1\<lparr>currentPath := cp\<rparr>"
    by blast
  have "run (map (\<lambda>(p, r, e). PointerMove p r e) (m # ms)) st = st\<lparr>currentPath := cp\<rparr>"
    using cp(2) c1(2) by (simp add: m run_Cons st1_def)
  with cp(1) show ?case by blast
qed

lemma gesture_appends:
  assumes "gestureStarts st g"
  shows "\<exists>pts. pts \<noteq> [] \<and>
     run (gestureActions g) st =
       st\<lparr>isDrawing := False,
          paths := paths st @ [\<lparr>path_points = pts, path_size = brushSize (g_up g)\<rparr>],
          currentPath := []\<rparr>"
proof -
  obtain p r e where d: "g_down g = (p, r, e)" by (cases "g_down g")
  from assms d obtain pt where pt: "\<not> isProcessing p" "getCoordinates (canvasRef st r) e = Some pt"
    by (auto simp: gestureStarts_def)
  define st1 where "st1 = st\<lparr>isDrawing := True, currentPath := [pt]\<rparr>"
  have s1: "step st (PointerDown p r e) = st1"
    using pt by (simp add: startDrawing_def st1_def)
  have "isDrawing st1" "currentPath st1 \<noteq> []" by (simp_all add: st1_def)
  from moves_keep[OF this, of "g_moves g"] obtain cp where
    cp: "cp \<noteq> []" "run (map (\<lambda>(p, r, e). PointerMove p r e) (g_moves g)) st1 = st1\<lparr>currentPath := cp\<rparr>"
    by blast
  have "run (gestureActions g) st = stopDrawing (g_up g) (st1\<lparr>currentPath := cp\<rparr>)"
    using cp(2) s1 by (simp add: gestureActions_def d run_Cons run_append run_Nil)
  also have "\<dots> = st\<lparr>isDrawing := False,
          paths := paths st @ [\<lparr>path_points = cp, path_size = brushSize (g_up g)\<rparr>],
          currentPath := []\<rparr>"
    using cp(1) by (simp add: stopDrawing_def st1_def)
  finally show ?thesis using cp(1) by blast
qed

lemma gestureStarts_cong:
  "imgDimensions st' = imgDimensions st \<Longrightarrow> gestureStarts st' g = gestureStarts st g"
proof -
  assume "imgDimensions st' = imgDimensions st"
  then have "\<And>r. canvasRef st' r = canvasRef st r"
    by (simp add: canvasRef_def)
  then show ?thesis by (simp add: gestureStarts_def)
qed

lemma gestures_count:
  "\<forall>g\<in>set gs. gestureStarts st g \<Longrightarrow>
   length (paths (run (concat (map gestureActions gs)) st)) = length (paths st) + length gs
   \<and> (currentPath st = [] \<longrightarrow> currentPath (run (concat (map gestureActions gs)) st) = [])
   \<and> take (length (paths st)) (paths (run (concat (map gestureActions gs)) st)) = paths st"
proof (induction gs arbitrary: st)
  case Nil
  then show ?case by (simp add: run_Nil)
next
  case (Cons g gs)
  then have "gestureStarts st g" by simp
  from gesture_appends[OF this] obtain pts where
    st1: "run (gestureActions g) st =
       st\<lparr>isDrawing := False,
          paths := paths st @ [\<lparr>path_points = pts, path_size = brushSize (g_up g)\<rparr>],
          currentPath := []\<rparr>" by blast
  define st1 where "st1 = run (gestureActions g) st"
  have dims: "imgDimensions st1 = imgDimensions st" by (simp add: st1_def st1)
  have "\<forall>g'\<in>set gs. gestureStarts st1 g'"
    using Cons.prems gestureStarts_cong[OF dims] by simp
  from Cons.IH[OF this]
  have ih: "length (paths (run (concat (map gestureActions gs)) st1)) = length (paths st1) + length gs"
    "currentPath st1 = [] \<longrightarrow> currentPath (run (concat (map gestureActions gs)) st1) = []"
    "take (length (paths st1)) (paths (run (concat (map gestureActions gs)) st1)) = paths st1"
    by simp_all
  have r: "run (gestureActions g @ concat (map gestureActions gs)) st = run (concat (map gestureActions gs)) st1"
    by (simp add: run_append st1_def)
  have p1: "paths st1 = paths st @ [\<lparr>path_points = pts, path_size = brushSize (g_up g)\<rparr>]"
    and c1: "currentPath st1 = []"
    by (simp_all add: st1_def st1)
  have "take (length (paths st)) (paths (run (concat (map gestureActions gs)) st1))
        = take (length (paths st)) (take (length (paths st1)) (paths (run (concat (map gestureActions gs)) st1)))"
    by (simp add: p1 min_def)
  also have "\<dots> = take (length (paths st)) (paths st1)" by (simp only: ih(3))
  also have "\<dots> = paths st" by (simp add: p1)
  finally show ?case using ih(1,2) c1 by (simp add: r p1)
qed

lemma undo_n:
  "run (replicate n UndoClick) st = st\<lparr>paths := take (length (paths st) - n) (paths st)\<rparr>"
proof (induction n arbitrary: st)
  case 0
  then show ?case by (simp add: run_Nil)
next
  case (Suc n)
  have "run (replicate (Suc n) UndoClick) st = run (replicate n UndoClick) (undoLast st)"
    by (simp add: run_Cons)
  also have "\<dots> = st\<lparr>paths := take (length (paths st) - Suc n) (paths st)\<rparr>"
    by (simp add: Suc.IH undoLast_def butlast_conv_take min_def)
  finally show ?case .
qed


lemma ex_loaded_eval: "ex_loaded = \<lparr>isDrawing = False, paths = [], currentPath = [],
     imgDimensions = \<lparr>dim_width = 800, dim_height = 600\<rparr>, scale = Num (1/2)\<rparr>"
  by (simp add: ex_defs model_defs)

lemma ex_gesture_eval: "run (gestureActions ex_gesture) ex_loaded =
   \<lparr>isDrawing = False,
    paths = [\<lparr>path_points = [\<lparr>point_x = Num 100, point_y = Num 100\<rparr>, \<lparr>point_x = Num 200, point_y = Num 100\<rparr>],
              path_size = 50\<rparr>],
    currentPath = [],
    imgDimensions = \<lparr>dim_width = 800, dim_height = 600\<rparr>, scale = Num (1/2)\<rparr>"
  by (simp add: ex_defs model_defs)

lemma ex_gesture_starts: "gestureStarts ex_loaded ex_gesture"
  by (simp add: ex_defs model_defs)

lemma step_imgDimensions:
  "\<not> isImageLoaded a \<Longrightarrow> imgDimensions (step st a) = imgDimensions st"
  by (cases a)
     (auto simp: fitImageToContainer_def handleResize_def startDrawing_def draw_def
        stopDrawing_def undoLast_def clearAll_def Let_def split: option.splits)

lemma run_imgDimensions:
  "\<not> list_ex isImageLoaded acts \<Longrightarrow> imgDimensions (run acts st) = imgDimensions st"
proof (induction acts arbitrary: st)
  case Nil
  then show ?case by (simp add: run_Nil)
next
  case (Cons a acts)
  then show ?case by (simp add: run_Cons step_imgDimensions)
qed

lemma onImageLoad_imgDimensions:
  "imgDimensions (onImageLoad d w h st) = \<lparr>dim_width = w, dim_height = h\<rparr>"
  by (simp add: onImageLoad_def fitImageToContainer_def Let_def split: option.splits)

lemma generateMask_ok:
  assumes "pathsNonempty st"
  shows "\<exists>ls. length ls = length (paths st) \<and>
     generateMask True st = Inr [\<lparr>mask_width = dim_width (imgDimensions st),
        mask_height = dim_height (imgDimensions st), mask_lines = ls\<rparr>]"
proof -
  from assms obtain ls where "strokePaths 1 (paths st) = Inr ls" "length ls = length (paths st)"
    using strokePaths_ok[of "paths st" 1] by (auto simp: pathsNonempty_def)
  then show ?thesis by (simp add: generateMask_def)
qed

lemma ex_export_eval:
  "exportEffect True (Some 0) (ex_props 30\<lparr>triggerExport := 1\<rparr>)
     (run (gestureActions ex_gesture) ex_loaded)
   = Inr [\<lparr>mask_width = 800, mask_height = 600,
           mask_lines = [\<lparr>line_width = 50, line_start = \<lparr>point_x = Num 100, point_y = Num 100\<rparr>,
                          line_rest = [\<lparr>point_x = Num 200, point_y = Num 100\<rparr>]\<rparr>]\<rparr>]"
  by (simp add: ex_gesture_eval exportEffect_def generateMask_def ex_props_def)

lemma canvasRef_native:
  "canvasRef st r = Some cv \<Longrightarrow>
     canvas_width cv = dim_width (imgDimensions st) \<and> canvas_height cv = dim_height (imgDimensions st)
     \<and> canvas_rect cv = r"
  by (auto simp: canvasRef_def split: if_splits)

lemma generateMask_throws_on_empty_path:
  "generateMask True (initState\<lparr>paths := [\<lparr>path_points = [], path_size = 30\<rparr>]\<rparr>) = Inl TypeError"
  by (simp add: generateMask_def initState_def)

section \<open>Claims about the stroke model\<close>

text \<open>
  C3, as stated, fails: the completed stroke does not get the brush size that was set
  at pointer-down. In the example gesture the brush size is 30 at pointer-down and 50 at
  pointer-up, and the appended stroke has size 50.
\<close>

theorem stroke_width_from_gesture_start_counterexample:
  "path_size (last (paths (run (gestureActions ex_gesture) ex_loaded)))
     \<noteq> brushSize (fst (g_down ex_gesture))"
  by (simp add: ex_gesture_eval) (simp add: ex_defs)

text \<open>
  C3, amended: for every drawing gesture whose pointer-down is accepted, exactly one
  stroke is appended at gesture end, and its width is the brush-size prop of the render
  in which \<open>stopDrawing\<close> runs, that is the brush size at gesture end.
\<close>

theorem stroke_width_is_brush_size_at_gesture_end:
  assumes "gestureStarts st g"
  shows "\<exists>pts. pts \<noteq> [] \<and>
     paths (run (gestureActions g) st) =
       paths st @ [\<lparr>path_points = pts, path_size = brushSize (g_up g)\<rparr>]"
proof -
  from gesture_appends[OF assms] obtain pts where "pts \<noteq> []"
    "run (gestureActions g) st =
       st\<lparr>isDrawing := False,
          paths := paths st @ [\<lparr>path_points = pts, path_size = brushSize (g_up g)\<rparr>],
          currentPath := []\<rparr>" by blast
  then show ?thesis by auto
qed

theorem stroke_width_is_brush_size_at_gesture_end_witness:
  "gestureStarts ex_loaded ex_gesture \<and>
   (\<exists>pts. pts \<noteq> [] \<and> paths (run (gestureActions ex_gesture) ex_loaded) =
       paths ex_loaded @ [\<lparr>path_points = pts, path_size = 50\<rparr>])"
proof -
  have b: "brushSize (g_up ex_gesture) = 50" by (simp add: ex_defs)
  show ?thesis
    using stroke_width_is_brush_size_at_gesture_end[OF ex_gesture_starts] ex_gesture_starts
    by (simp add: b)
qed

text \<open>
  C8: a pointer-down while the processing flag is true changes nothing: completed paths,
  the path in progress and the drawing flag are all as before.
\<close>

theorem startDrawing_noop_while_processing:
  assumes "isProcessing p"
  shows "startDrawing p cv e st = st \<and> step st (PointerDown p r e) = st"
  using assms by (simp add: startDrawing_def)

theorem startDrawing_noop_while_processing_witness:
  "isProcessing \<lparr>brushSize = 30, isProcessing = True, triggerExport = 1\<rparr> \<and>
   startDrawing \<lparr>brushSize = 30, isProcessing = True, triggerExport = 1\<rparr>
      (canvasRef ex_loaded ex_rect) (MouseEvent 60 70) ex_loaded = ex_loaded \<and>
   step ex_loaded (PointerDown \<lparr>brushSize = 30, isProcessing = True, triggerExport = 1\<rparr> ex_rect (MouseEvent 60 70))
     = ex_loaded"
  using startDrawing_noop_while_processing[of "\<lparr>brushSize = 30, isProcessing = True, triggerExport = 1\<rparr>"
      "canvasRef ex_loaded ex_rect" "MouseEvent 60 70" ex_loaded ex_rect]
  by simp

text \<open>
  C9: starting from an empty model, after N gestures whose pointer-down is accepted the
  model holds exactly N completed strokes; k clicks on undo leave the first N - k of
  them, so N clicks leave none, with no stroke in progress; and undo on that empty model
  changes nothing.
\<close>

theorem gestures_then_undo_returns_to_empty:
  assumes "paths st = []" and "currentPath st = []" and "\<forall>g\<in>set gs. gestureStarts st g"
  shows "length (paths (run (concat (map gestureActions gs)) st)) = length gs
     \<and> (\<forall>k\<le>length gs.
          paths (run (replicate k UndoClick) (run (concat (map gestureActions gs)) st))
            = take (length gs - k) (paths (run (concat (map gestureActions gs)) st)))
     \<and> paths (run (replicate (length gs) UndoClick) (run (concat (map gestureActions gs)) st)) = []
     \<and> currentPath (run (replicate (length gs) UndoClick) (run (concat (map gestureActions gs)) st)) = []
     \<and> undoLast (run (replicate (length gs) UndoClick) (run (concat (map gestureActions gs)) st))
         = run (replicate (length gs) UndoClick) (run (concat (map gestureActions gs)) st)"
proof -
  define st' where "st' = run (concat (map gestureActions gs)) st"
  from gestures_count[OF assms(3)] assms(1,2)
  have len: "length (paths st') = length gs" and cur: "currentPath st' = []"
    by (simp_all add: st'_def)
  have u: "run (replicate k UndoClick) st' = st'\<lparr>paths := take (length gs - k) (paths st')\<rparr>" for k
    by (simp add: undo_n len)
  show ?thesis
    unfolding st'_def[symmetric] using len cur by (simp add: u undoLast_def)
qed

theorem gestures_then_undo_returns_to_empty_witness:
  "paths ex_loaded = [] \<and> currentPath ex_loaded = []
   \<and> gestureStarts ex_loaded ex_gesture
   \<and> length (paths (run (concat (map gestureActions [ex_gesture, ex_gesture])) ex_loaded)) = 2
   \<and> paths (run (replicate 1 UndoClick) (run (concat (map gestureActions [ex_gesture, ex_gesture])) ex_loaded))
       = take (2 - 1) (paths (run (concat (map gestureActions [ex_gesture, ex_gesture])) ex_loaded))
   \<and> paths (run (replicate 2 UndoClick) (run (concat (map gestureActions [ex_gesture, ex_gesture])) ex_loaded)) = []
   \<and> currentPath (run (replicate 2 UndoClick) (run (concat (map gestureActions [ex_gesture, ex_gesture])) ex_loaded)) = []"
proof -
  have a: "paths ex_loaded = []" "currentPath ex_loaded = []"
    by (simp_all add: ex_loaded_eval)
  have b: "\<forall>g\<in>set [ex_gesture, ex_gesture]. gestureStarts ex_loaded g"
    by (simp add: ex_gesture_starts)
  have l: "length [ex_gesture, ex_gesture] = 2" by simp
  note th = gestures_then_undo_returns_to_empty[OF a b, unfolded l]
  have "(1::nat) \<le> 2" by simp
  with th have "paths (run (replicate 1 UndoClick) (run (concat (map gestureActions [ex_gesture, ex_gesture])) ex_loaded))
       = take (2 - 1) (paths (run (concat (map gestureActions [ex_gesture, ex_gesture])) ex_loaded))"
    by blast
  with th a ex_gesture_starts show ?thesis
    by blast
qed

text \<open>
  C10: in every state reachable from the initial state by image loads, resizes, pointer
  events, undo and clear, each completed path has at least one point; so reading the first
  point of each path in \<open>generateMask\<close> never throws.
\<close>

theorem completed_paths_have_a_first_point:
  "(\<forall>pa \<in> set (paths (run acts initState)). path_points pa \<noteq> [])
   \<and> generateMask hasCtx (run acts initState) \<noteq> Inl TypeError
   \<and> exportEffect hasCtx prev p (run acts initState) \<noteq> Inl TypeError"
proof -
  have wf: "pathsNonempty (run acts initState)"
    by (intro run_pathsNonempty initState_pathsNonempty)
  from generateMask_ok[OF wf] have "generateMask True (run acts initState) \<noteq> Inl TypeError"
    by auto
  then have g: "generateMask hasCtx (run acts initState) \<noteq> Inl TypeError"
    by (cases hasCtx) (simp_all add: generateMask_def)
  from wf g show ?thesis
    by (auto simp: pathsNonempty_def list_all_iff exportEffect_def)
qed

theorem completed_paths_have_a_first_point_witness:
  "paths (run (ImageLoaded ex_dom 800 600 # gestureActions ex_gesture) initState) \<noteq> []
   \<and> path_points (last (paths (run (ImageLoaded ex_dom 800 600 # gestureActions ex_gesture) initState))) \<noteq> []
   \<and> generateMask True (run (ImageLoaded ex_dom 800 600 # gestureActions ex_gesture) initState) \<noteq> Inl TypeError"
proof -
  have "run (ImageLoaded ex_dom 800 600 # gestureActions ex_gesture) initState
        = run (gestureActions ex_gesture) ex_loaded"
    by (simp add: run_Cons ex_loaded_def)
  then have "paths (run (ImageLoaded ex_dom 800 600 # gestureActions ex_gesture) initState) \<noteq> []"
    by (simp add: ex_gesture_eval)
  then show ?thesis
    using completed_paths_have_a_first_point[of "ImageLoaded ex_dom 800 600 # gestureActions ex_gesture" True None "ex_props 30"]
      last_in_set[of "paths (run (ImageLoaded ex_dom 800 600 # gestureActions ex_gesture) initState)"]
    by blast
qed

section \<open>Claims about the coordinate mapper\<close>

text \<open>
  C5, as stated, fails: with the canvas mounted and a bounding box of width and height 0
  the mapper does not signal "not ready". It divides by zero, which yields an infinite
  coordinate, and \<open>startDrawing\<close> records that point.
\<close>

theorem mapper_divides_by_zero_box_counterexample:
  "getCoordinates (canvasRef ex_loaded ex_rect_flat) (MouseEvent 60 70)
     = Some \<lparr>point_x = PosInf, point_y = PosInf\<rparr>
   \<and> currentPath (startDrawing (ex_props 30) (canvasRef ex_loaded ex_rect_flat) (MouseEvent 60 70) ex_loaded)
     = [\<lparr>point_x = PosInf, point_y = PosInf\<rparr>]"
  by (simp add: ex_loaded_eval canvasRef_def ex_rect_flat_def ex_props_def startDrawing_def)

text \<open>
  C5, amended: the mapper signals "not ready" (null) exactly when the canvas is not
  mounted or a touch event carries no touch. The canvas is not mounted while the image
  dimensions are unknown (width 0). In these cases neither \<open>startDrawing\<close> nor
  \<open>draw\<close> records a point.
\<close>

theorem mapper_not_ready_without_canvas_or_touch:
  "(getCoordinates cv e = None \<longleftrightarrow> cv = None \<or> e = TouchEvent [])
   \<and> (dim_width (imgDimensions st) = 0 \<or> e = TouchEvent [] \<longrightarrow>
        getCoordinates (canvasRef st r) e = None
        \<and> startDrawing p (canvasRef st r) e st = st
        \<and> draw p (canvasRef st r) e st = st)"
proof -
  have nr: "startDrawing p c e st = st \<and> draw p c e st = st" if "getCoordinates c e = None" for c
    using that by (simp add: startDrawing_def draw_def)
  have g: "getCoordinates (canvasRef st r) e = None"
    if "dim_width (imgDimensions st) = 0 \<or> e = TouchEvent []"
    using that by (auto simp: getCoordinates_None_iff canvasRef_def)
  have main: "getCoordinates (canvasRef st r) e = None
        \<and> startDrawing p (canvasRef st r) e st = st
        \<and> draw p (canvasRef st r) e st = st"
    if "dim_width (imgDimensions st) = 0 \<or> e = TouchEvent []"
    using nr[OF g[OF that]] g[OF that] by simp
  show ?thesis
    by (rule conjI[OF getCoordinates_None_iff impI[OF main]])
qed

theorem mapper_not_ready_without_canvas_or_touch_witness:
  "(dim_width (imgDimensions initState) = 0 \<or> MouseEvent 60 70 = TouchEvent [])
   \<and> canvasRef initState ex_rect = None
   \<and> getCoordinates (canvasRef initState ex_rect) (MouseEvent 60 70) = None
   \<and> startDrawing (ex_props 30) (canvasRef initState ex_rect) (MouseEvent 60 70) initState = initState
   \<and> draw (ex_props 30) (canvasRef initState ex_rect) (MouseEvent 60 70) initState = initState"
  using mapper_not_ready_without_canvas_or_touch[of "canvasRef initState ex_rect" "MouseEvent 60 70"
      initState ex_rect "ex_props 30"]
  by (simp add: initState_def canvasRef_def)

text \<open>
  C6: for a pointer event with client coordinates (clientX, clientY) and a bounding box
  of non-zero width and height, the mapper returns
  x = (clientX - left) * (canvas.width / box width), and y likewise. When the box is the
  pixel buffer scaled by s, scaling the point by s and adding the box origin gives back
  the click position (within one pixel; exactly, in real arithmetic).
\<close>

theorem mapper_is_affine_and_round_trips:
  assumes "e = MouseEvent clientX clientY \<or> e = TouchEvent ((clientX, clientY) # ts)"
    and "rect_width (canvas_rect cv) \<noteq> 0" and "rect_height (canvas_rect cv) \<noteq> 0"
  shows "\<exists>x y. getCoordinates (Some cv) e = Some \<lparr>point_x = Num x, point_y = Num y\<rparr>
     \<and> x = (clientX - rect_left (canvas_rect cv))
            * (real (canvas_width cv) / rect_width (canvas_rect cv))
     \<and> y = (clientY - rect_top (canvas_rect cv))
            * (real (canvas_height cv) / rect_height (canvas_rect cv))
     \<and> (rect_width (canvas_rect cv) = real (canvas_width cv) * s
          \<and> rect_height (canvas_rect cv) = real (canvas_height cv) * s
        \<longrightarrow> \<bar>(rect_left (canvas_rect cv) + x * s) - clientX\<bar> < 1
          \<and> \<bar>(rect_top (canvas_rect cv) + y * s) - clientY\<bar> < 1)"
proof -
  define x where "x = (clientX - rect_left (canvas_rect cv))
            * (real (canvas_width cv) / rect_width (canvas_rect cv))"
  define y where "y = (clientY - rect_top (canvas_rect cv))
            * (real (canvas_height cv) / rect_height (canvas_rect cv))"
  have g: "getCoordinates (Some cv) e = Some \<lparr>point_x = Num x, point_y = Num y\<rparr>"
    using assms by (auto simp: x_def y_def Let_def)
  have rx: "rect_left (canvas_rect cv) + x * s = clientX"
    if "rect_width (canvas_rect cv) = real (canvas_width cv) * s"
    using that assms(2) by (simp add: x_def)
  have ry: "rect_top (canvas_rect cv) + y * s = clientY"
    if "rect_height (canvas_rect cv) = real (canvas_height cv) * s"
    using that assms(3) by (simp add: y_def)
  show ?thesis
    using g rx ry x_def y_def by auto
qed


theorem mapper_is_affine_and_round_trips_witness:
  "(MouseEvent 60 70 = MouseEvent 60 70 \<or> MouseEvent 60 70 = TouchEvent [(60, 70)])
   \<and> rect_width (canvas_rect \<lparr>canvas_width = 800, canvas_height = 600, canvas_rect = ex_rect\<rparr>) \<noteq> 0
   \<and> rect_height (canvas_rect \<lparr>canvas_width = 800, canvas_height = 600, canvas_rect = ex_rect\<rparr>) \<noteq> 0
   \<and> rect_width ex_rect = real 800 * (1 / 2) \<and> rect_height ex_rect = real 600 * (1 / 2)
   \<and> getCoordinates (Some \<lparr>canvas_width = 800, canvas_height = 600, canvas_rect = ex_rect\<rparr>) (MouseEvent 60 70)
       = Some \<lparr>point_x = Num 100, point_y = Num 100\<rparr>
   \<and> \<bar>(rect_left ex_rect + 100 * (1 / 2)) - 60\<bar> < (1::real)
   \<and> \<bar>(rect_top ex_rect + 100 * (1 / 2)) - 70\<bar> < (1::real)"
  using mapper_is_affine_and_round_trips[of "MouseEvent 60 70" 60 70 "[]"
      "\<lparr>canvas_width = 800, canvas_height = 600, canvas_rect = ex_rect\<rparr>" "1 / 2"]
  by (simp add: ex_rect_def)

section \<open>Claims about the fit-to-container scaler\<close>

text \<open>
  C2: with the container mounted, the scale set by \<open>fitImageToContainer\<close> never
  exceeds 1, for every container size and image size. For an image of positive width and
  height it is min (cw / iw, ch / ih, 1), where ch is the measured container height, or
  0.6 times the window's inner height when the measured height is 0. With a measured
  height of 0, a positive container width and a positive inner height, the scale is
  positive.
\<close>

theorem fit_scale_is_min_and_never_upscales:
  assumes "containerRef d = Some c"
  shows "\<not> js_lt (Num 1) (scale (fitImageToContainer d imgW imgH st))
     \<and> (0 < imgW \<and> 0 < imgH \<longrightarrow>
          (\<exists>s. scale (fitImageToContainer d imgW imgH st) = Num s
             \<and> s = spec_scale (real (clientWidth c))
                  (if clientHeight c = 0 then real (innerHeight d) * (6 / 10) else real (clientHeight c))
                  (real imgW) (real imgH)
             \<and> s \<le> 1
             \<and> (clientHeight c = 0 \<and> 0 < clientWidth c \<and> 0 < innerHeight d \<longrightarrow> 0 < s)))"
proof -
  have up: "\<not> js_lt (Num 1) (scale (fitImageToContainer d imgW imgH st))"
    using assms by (simp add: fitImageToContainer_def Let_def Math_min3_le_one)
  have fin: "\<exists>s. scale (fitImageToContainer d imgW imgH st) = Num s
             \<and> s = spec_scale (real (clientWidth c))
                  (if clientHeight c = 0 then real (innerHeight d) * (6 / 10) else real (clientHeight c))
                  (real imgW) (real imgH)
             \<and> s \<le> 1
             \<and> (clientHeight c = 0 \<and> 0 < clientWidth c \<and> 0 < innerHeight d \<longrightarrow> 0 < s)"
    if pos_img: "0 < imgW \<and> 0 < imgH"
  proof -
    define cw where "cw = real (clientWidth c)"
    define ch where "ch = (if clientHeight c = 0 then real (innerHeight d) * (6 / 10)
                           else real (clientHeight c))"
    define s where "s = spec_scale cw ch (real imgW) (real imgH)"
    have sc: "scale (fitImageToContainer d imgW imgH st) = Num s"
      using assms pos_img
      by (simp add: fitImageToContainer_def Math_min_def Let_def spec_scale_def s_def cw_def ch_def)
    have le: "s \<le> 1"
      by (simp add: s_def spec_scale_def)
    have pos: "0 < s" if "clientHeight c = 0" "0 < clientWidth c" "0 < innerHeight d"
      using that pos_img by (simp add: s_def spec_scale_def cw_def ch_def)
    show ?thesis
    proof (intro exI[of _ s] conjI impI)
      show "scale (fitImageToContainer d imgW imgH st) = Num s" by (rule sc)
      show "s = spec_scale (real (clientWidth c))
                (if clientHeight c = 0 then real (innerHeight d) * (6 / 10) else real (clientHeight c))
                (real imgW) (real imgH)"
        by (simp only: s_def cw_def ch_def)
      show "s \<le> 1" by (rule le)
      assume "clientHeight c = 0 \<and> 0 < clientWidth c \<and> 0 < innerHeight d"
      then show "0 < s" using pos by blast
    qed
  qed
  show ?thesis
    by (rule conjI[OF up impI[OF fin]])
qed

theorem fit_scale_is_min_and_never_upscales_witness:
  "containerRef ex_dom_flat = Some \<lparr>clientWidth = 400, clientHeight = 0\<rparr> \<and> (0::nat) < 800 \<and> (0::nat) < 600
   \<and> clientHeight \<lparr>clientWidth = 400, clientHeight = 0\<rparr> = 0
   \<and> 0 < clientWidth \<lparr>clientWidth = 400, clientHeight = 0\<rparr> \<and> 0 < innerHeight ex_dom_flat
   \<and> \<not> js_lt (Num 1) (scale (fitImageToContainer ex_dom_flat 800 600 initState))
   \<and> scale (fitImageToContainer ex_dom_flat 800 600 initState) = Num (1 / 2)
   \<and> spec_scale 400 600 800 600 = 1 / 2"
proof -
  have a: "containerRef ex_dom_flat = Some \<lparr>clientWidth = 400, clientHeight = 0\<rparr>"
    by (simp add: ex_dom_flat_def)
  show ?thesis
    using fit_scale_is_min_and_never_upscales[OF a, of 800 600 initState] a
    by (auto simp: ex_dom_flat_def spec_scale_def)
qed

section \<open>Claims about the mask exporter\<close>

text \<open>
  Once the image has loaded with width w and height h, the exporter is right about the
  size: when the export effect fires (the counter changed and is not 0) in a state reached
  from the load by any actions other than another image load, and whatever the display
  scale s is, exactly one mask is handed to the callback and its size is w by h.
\<close>

lemma mask_dimensions_after_load:
  assumes "triggerExport p \<noteq> 0" and "prev \<noteq> Some (triggerExport p)"
    and "\<not> list_ex isImageLoaded post"
  shows "\<exists>ls. exportEffect True prev p
            ((run post (onImageLoad d w h (run pre initState)))\<lparr>scale := s\<rparr>)
          = Inr [\<lparr>mask_width = w, mask_height = h, mask_lines = ls\<rparr>]"
proof -
  define st where "st = (run post (onImageLoad d w h (run pre initState)))\<lparr>scale := s\<rparr>"
  have "pathsNonempty (run post (step (run pre initState) (ImageLoaded d w h)))"
    by (intro run_pathsNonempty step_pathsNonempty initState_pathsNonempty)
  then have wf: "pathsNonempty st"
    by (simp add: st_def pathsNonempty_def)
  have dims: "imgDimensions st = \<lparr>dim_width = w, dim_height = h\<rparr>"
    using assms(3) by (simp add: st_def run_imgDimensions onImageLoad_imgDimensions)
  from generateMask_ok[OF wf] obtain ls where
    "generateMask True st = Inr [\<lparr>mask_width = w, mask_height = h, mask_lines = ls\<rparr>]"
    by (auto simp: dims)
  then show ?thesis
    using assms(1,2) by (auto simp: exportEffect_def st_def)
qed

lemma mask_dimensions_after_load_example:
  "triggerExport (ex_props 30\<lparr>triggerExport := 1\<rparr>) \<noteq> 0 \<and> Some 0 \<noteq> Some (triggerExport (ex_props 30\<lparr>triggerExport := 1\<rparr>))
   \<and> \<not> list_ex isImageLoaded (gestureActions ex_gesture @ [Resize ex_dom_flat])
   \<and> (\<exists>ls. exportEffect True (Some 0) (ex_props 30\<lparr>triggerExport := 1\<rparr>)
            ((run (gestureActions ex_gesture @ [Resize ex_dom_flat]) (onImageLoad ex_dom 800 600 (run [] initState)))\<lparr>scale := Num (1/4)\<rparr>)
          = Inr [\<lparr>mask_width = 800, mask_height = 600, mask_lines = ls\<rparr>])"
proof -
  have a: "triggerExport (ex_props 30\<lparr>triggerExport := 1\<rparr>) \<noteq> 0" by (simp add: ex_props_def)
  have b: "Some 0 \<noteq> Some (triggerExport (ex_props 30\<lparr>triggerExport := 1\<rparr>))" by (simp add: ex_props_def)
  have c: "\<not> list_ex isImageLoaded (gestureActions ex_gesture @ [Resize ex_dom_flat])"
    by (simp add: gestureActions_def ex_gesture_def)
  show ?thesis
    using mask_dimensions_after_load[OF a b c, where d=ex_dom and w=800 and h=600 and pre="[]" and s="Num (1/4)"] a b c
    by blast
qed

text \<open>
  C1: the code at the failing input. The export trigger arrives (the counter goes from 0
  to 1) before \<open>img.onload\<close> has run for a source image of native size 800 by 600. The
  mask handed to the callback has size 0 by 0, not 800 by 600: the exporter takes the
  size from \<open>imgDimensions\<close>, which still holds its initial value and gets the native
  size only at load.
\<close>

theorem export_before_image_load_misses_native_dimensions:
  "exportEffect True (Some 0)
      \<lparr>brushSize = 30, isProcessing = False, triggerExport = handleStartProcessing 0\<rparr> initState
     = Inr [\<lparr>mask_width = 0, mask_height = 0, mask_lines = []\<rparr>]
   \<and> imgDimensions (onImageLoad ex_dom 800 600 initState) = \<lparr>dim_width = 800, dim_height = 600\<rparr>
   \<and> (0::nat) \<noteq> 800 \<and> (0::nat) \<noteq> 600"
  by (simp add: exportEffect_def generateMask_def initState_def handleStartProcessing_def
        onImageLoad_imgDimensions)

text \<open>
  C4: the code at the failing input. The counter goes from 0 to 1 while the image
  dimensions are still 0 by 0: the export is not skipped, and the callback is called with
  a raster of size 0 by 0.
\<close>

theorem export_before_image_load_yields_empty_raster:
  "exportEffect True (Some 0) \<lparr>brushSize = 30, isProcessing = False, triggerExport = handleStartProcessing 0\<rparr> initState
     = Inr [\<lparr>mask_width = 0, mask_height = 0, mask_lines = []\<rparr>]"
  by (simp add: exportEffect_def generateMask_def initState_def handleStartProcessing_def)


text \<open>
  C7: the effect never calls the callback while the counter is 0, whatever the previous
  render was; a render whose counter is the previous one plus 1 calls it exactly once (in
  every reachable state, given a 2D context); a render with an unchanged counter does not
  call it.
\<close>

theorem export_runs_once_per_increment:
  "exportEffect hasCtx prev (p\<lparr>triggerExport := 0\<rparr>) st = Inr []
   \<and> (\<exists>m. exportEffect True (Some n) (p\<lparr>triggerExport := handleStartProcessing n\<rparr>)
             (run acts initState) = Inr [m])
   \<and> exportEffect hasCtx (Some n) (p\<lparr>triggerExport := n\<rparr>) st = Inr []"
proof -
  have "pathsNonempty (run acts initState)"
    by (intro run_pathsNonempty initState_pathsNonempty)
  from generateMask_ok[OF this] obtain m where "generateMask True (run acts initState) = Inr [m]"
    by blast
  then show ?thesis
    by (simp add: exportEffect_def handleStartProcessing_def)
qed

theorem export_runs_once_per_increment_witness:
  "exportEffect True None (ex_props 30\<lparr>triggerExport := 0\<rparr>) ex_loaded = Inr []
   \<and> (\<exists>m. exportEffect True (Some 0) (ex_props 30\<lparr>triggerExport := 1\<rparr>)
             (run (ImageLoaded ex_dom 800 600 # gestureActions ex_gesture) initState) = Inr [m])
   \<and> exportEffect True (Some 1) (ex_props 30\<lparr>triggerExport := 1\<rparr>) ex_loaded = Inr []"
  using export_runs_once_per_increment[of True None "ex_props 30" ex_loaded 0
      "ImageLoaded ex_dom 800 600 # gestureActions ex_gesture"]
    export_runs_once_per_increment[of True None "ex_props 30" ex_loaded 1 "[]"]
  by (simp add: handleStartProcessing_def)

end
